theory Spec2Isabelle
  imports Main "HOL-Library.AList"
begin

section \<open>Values of the Go program\<close>

text \<open>
  The package \<^verbatim>\<open>tcpserver\<close> (file \<^verbatim>\<open>tcpserver.go\<close>) is embedded function by function.
  Objects that the package only holds and calls (listeners, connections, handlers, TLS
  configurations, loggers) are identities; what their methods answer is an input of the
  model, and every call the package makes on them is recorded, in program order, in the
  list of events a function returns.
\<close>

datatype conn = Conn nat
datatype listener = Listener nat
datatype handler = HandlerId nat
datatype tls_config = TLSConfigId nat

text \<open>
  \<^verbatim>\<open>errorLog\<close> is either the logger the user supplied or
  \<^verbatim>\<open>log.New(ioutil.Discard, "", log.LstdFlags)\<close>.
\<close>

datatype logger = Logger nat | DiscardLogger

text \<open>
  Go \<^verbatim>\<open>error\<close> values. \<open>NetError msg t\<close> implements \<^verbatim>\<open>net.Error\<close> and its
  \<^verbatim>\<open>Temporary()\<close> answers \<open>t\<close>; \<open>PlainError\<close> does not implement \<^verbatim>\<open>net.Error\<close>.
  \<^verbatim>\<open>context.DeadlineExceeded\<close> has the methods of \<^verbatim>\<open>net.Error\<close> and answers
  \<^verbatim>\<open>true\<close> to \<^verbatim>\<open>Temporary()\<close>; \<^verbatim>\<open>context.Canceled\<close> is a plain error.
  A Go \<^verbatim>\<open>error\<close> that may be \<^verbatim>\<open>nil\<close> is an \<open>error option\<close>.
\<close>

datatype error = NetError string bool | PlainError string | DeadlineExceeded | Canceled

text \<open>Line 147: \<^verbatim>\<open>ne, ok := err.(net.Error); ok && ne.Temporary()\<close>.\<close>

fun is_temporary :: "error \<Rightarrow> bool" where
  "is_temporary (NetError msg t) = t"
| "is_temporary (PlainError msg) = False"
| "is_temporary DeadlineExceeded = True"
| "is_temporary Canceled = False"

subsection \<open>Buffered channels of \<^verbatim>\<open>struct{}\<close>\<close>

text \<open>
  A channel of \<^verbatim>\<open>struct{}\<close> carries no data: its state is its capacity and the number
  of buffered elements. A \<^verbatim>\<open>select\<close> with a \<^verbatim>\<open>default\<close> case never blocks: the send
  is dropped when the buffer is full, the receive fails when it is empty.
\<close>

record chan =
  chan_cap :: nat
  chan_len :: nat

definition make_chan :: "nat \<Rightarrow> chan" where
  "make_chan n = \<lparr>chan_cap = n, chan_len = 0\<rparr>"

text \<open>\<^verbatim>\<open>select { case ch <- struct{}{}: default: }\<close>\<close>

definition try_send :: "chan \<Rightarrow> chan" where
  "try_send ch = (if chan_len ch < chan_cap ch then ch\<lparr>chan_len := chan_len ch + 1\<rparr> else ch)"

text \<open>\<^verbatim>\<open>select { case <-ch: ...; default: }\<close>: whether an element was received, and the channel after.\<close>

definition try_recv :: "chan \<Rightarrow> bool \<times> chan" where
  "try_recv ch = (if 0 < chan_len ch then (True, ch\<lparr>chan_len := chan_len ch - 1\<rparr>) else (False, ch))"

subsection \<open>The server\<close>

text \<open>\<^verbatim>\<open>type connContext struct { conn net.Conn; closeCh chan struct{} }\<close>\<close>

record connContext =
  cc_conn :: conn
  cc_closeCh :: chan

text \<open>
  \<^verbatim>\<open>type TCPServer struct\<close>. The unexported fields \<^verbatim>\<open>l\<close>, \<^verbatim>\<open>conns\<close> and \<^verbatim>\<open>closeCh\<close> are
  \<^verbatim>\<open>nil\<close> (\<open>None\<close>) in a server that has not been served. The map \<^verbatim>\<open>conns\<close> is an
  association list with distinct keys, ranged over in list order; Go leaves the order of
  \<^verbatim>\<open>range\<close> over a map open, and no statement below depends on it. The mutex \<^verbatim>\<open>connsMu\<close>
  has no state of its own here: it makes each locked section one atomic step.
\<close>

record TCPServer =
  Addr :: string
  Handler :: "handler option"
  TLSConfig :: "tls_config option"
  ErrorLog :: "logger option"
  srv_l :: "listener option"
  srv_conns :: "(conn \<times> connContext) list option"
  srv_closeCh :: "chan option"

text \<open>A server as a client of the package can build it: the unexported fields are zero.\<close>

definition new_server :: "string \<Rightarrow> handler option \<Rightarrow> tls_config option \<Rightarrow> logger option \<Rightarrow> TCPServer" where
  "new_server addr h cfg lg =
     \<lparr>Addr = addr, Handler = h, TLSConfig = cfg, ErrorLog = lg,
      srv_l = None, srv_conns = None, srv_closeCh = None\<rparr>"

text \<open>Reading a \<^verbatim>\<open>nil\<close> map (\<^verbatim>\<open>range\<close>, \<^verbatim>\<open>len\<close>) is reading an empty one.\<close>

definition registry :: "TCPServer \<Rightarrow> (conn \<times> connContext) list" where
  "registry srv = (case srv_conns srv of None \<Rightarrow> [] | Some m \<Rightarrow> m)"

subsection \<open>Events and outcomes\<close>

text \<open>The stream handed to the handler: the accepted connection, or \<^verbatim>\<open>tls.Server(conn, cfg)\<close>.\<close>

datatype stream = Plain conn | TLSWrapped conn tls_config

text \<open>The calls of the package on its collaborators.\<close>

datatype event =
    ListenerClose listener
  | ShutdownSignal
  | CancelSignal conn
  | ConnClose stream
  | Register conn
  | Unregister conn
  | Handshake conn tls_config
  | HandlerServe handler stream
  | LogPrint logger string
  | ListenerAccept listener
  | Sleep_ms nat
  | Go_serve conn

text \<open>
  A run panics with a run-time error that nothing recovers (the process dies), returns a
  value, or is still blocked when the inputs it was given are used up.
\<close>

datatype fault = NilDereference | NilMapWrite

datatype 'a outcome = Returned 'a | Panicked fault | Blocked

type_synonym 'a run = "'a outcome \<times> TCPServer \<times> event list"

definition emit :: "event list \<Rightarrow> 'a run \<Rightarrow> 'a run" where
  "emit es r = (case r of (out, srv, tr) \<Rightarrow> (out, srv, es @ tr))"

section \<open>The steps shared by \<^verbatim>\<open>Shutdown\<close> and \<^verbatim>\<open>Close\<close>\<close>

text \<open>Lines 54-57 and 96-99: the send on a \<^verbatim>\<open>nil\<close> channel is never ready, so \<^verbatim>\<open>default\<close> runs.\<close>

definition signal_shutdown :: "TCPServer \<Rightarrow> TCPServer" where
  "signal_shutdown srv = srv\<lparr>srv_closeCh := map_option try_send (srv_closeCh srv)\<rparr>"

text \<open>Lines 62-64 and 104-106, for one entry.\<close>

definition signal_cancel :: "connContext \<Rightarrow> connContext" where
  "signal_cancel c = c\<lparr>cc_closeCh := try_send (cc_closeCh c)\<rparr>"

text \<open>Lines 59-66: the loop of \<^verbatim>\<open>Shutdown\<close> over the registry.\<close>

fun cancel_conns :: "(conn \<times> connContext) list \<Rightarrow> (conn \<times> connContext) list \<times> event list" where
  "cancel_conns [] = ([], [])"
| "cancel_conns ((k, c) # m) =
     (case cancel_conns m of (m', es) \<Rightarrow> ((k, signal_cancel c) # m', CancelSignal (cc_conn c) # es))"

text \<open>Lines 101-109: the loop of \<^verbatim>\<open>Close\<close> over the registry.\<close>

fun close_conns :: "(conn \<times> connContext) list \<Rightarrow> (conn \<times> connContext) list \<times> event list" where
  "close_conns [] = ([], [])"
| "close_conns ((k, c) # m) =
     (case close_conns m of (m', es) \<Rightarrow>
        ((k, signal_cancel c) # m', CancelSignal (cc_conn c) # ConnClose (Plain (cc_conn c)) # es))"

text \<open>Lines 78-82: the loop of \<^verbatim>\<open>Shutdown\<close> once the context is done.\<close>

fun force_close :: "(conn \<times> connContext) list \<Rightarrow> event list" where
  "force_close [] = []"
| "force_close ((k, c) # m) = ConnClose (Plain (cc_conn c)) # force_close m"

section \<open>\<^verbatim>\<open>Close\<close>\<close>

text \<open>
  Lines 94-112. \<open>lerr\<close> is what \<^verbatim>\<open>srv.l.Close()\<close> answers. Calling a method on the \<^verbatim>\<open>nil\<close>
  interface \<^verbatim>\<open>srv.l\<close> is a nil dereference.
\<close>

definition Close :: "TCPServer \<Rightarrow> error option \<Rightarrow> (error option) run" where
  "Close srv lerr =
     (case srv_l srv of
        None \<Rightarrow> (Panicked NilDereference, srv, [])
      | Some lst \<Rightarrow>
          let err = lerr;
              srv1 = signal_shutdown srv;
              (m, es) = close_conns (registry srv1);
              srv2 = (case srv_conns srv1 of None \<Rightarrow> srv1 | Some _ \<Rightarrow> srv1\<lparr>srv_conns := Some m\<rparr>)
          in (Returned err, srv2, ListenerClose lst # ShutdownSignal # es))"

section \<open>The worker \<^verbatim>\<open>serve\<close>\<close>

text \<open>
  What the server-side handshake and the handler do is an input: the handshake succeeds,
  fails or never comes back; the handler returns, panics with a value (given as the text
  \<^verbatim>\<open>errorLog.Print\<close> would write), or never comes back. \<^verbatim>\<open>recover()\<close> answers
  \<^verbatim>\<open>nil\<close> when nothing panicked and the panic value otherwise. The Go specification
  guarantees that \<^verbatim>\<open>recover\<close> does not answer \<^verbatim>\<open>nil\<close> in a panicking goroutine: a
  \<^verbatim>\<open>panic(nil)\<close> reaches it as a \<^verbatim>\<open>*runtime.PanicNilError\<close> (Go 1.21 and later).
\<close>

datatype handshake_result = HandshakeOK | HandshakeFailed error | HandshakeHangs

datatype handler_outcome = HandlerReturns | HandlerPanics string | HandlerHangs

text \<open>Lines 160-165; assigning to an entry of a \<^verbatim>\<open>nil\<close> map panics (\<open>None\<close>).\<close>

definition register :: "TCPServer \<Rightarrow> conn \<Rightarrow> TCPServer option" where
  "register srv c =
     (case srv_conns srv of
        None \<Rightarrow> None
      | Some m \<Rightarrow>
          Some (srv\<lparr>srv_conns := Some (AList.update c \<lparr>cc_conn = c, cc_closeCh = make_chan 1\<rparr> m)\<rparr>))"

text \<open>Lines 197-199; \<^verbatim>\<open>delete\<close> on a \<^verbatim>\<open>nil\<close> map does nothing.\<close>

definition unregister :: "TCPServer \<Rightarrow> conn \<Rightarrow> TCPServer" where
  "unregister srv c =
     (case srv_conns srv of
        None \<Rightarrow> srv
      | Some m \<Rightarrow> srv\<lparr>srv_conns := Some (AList.delete c m)\<rparr>)"

text \<open>Lines 173-182: \<^verbatim>\<open>handlerConn\<close>, with the events of computing it; \<open>None\<close> in the first
  component is a handshake that never comes back.\<close>

definition handlerConn :: "TCPServer \<Rightarrow> conn \<Rightarrow> handshake_result \<Rightarrow> (stream option) option \<times> event list" where
  "handlerConn srv c hs =
     (case TLSConfig srv of
        None \<Rightarrow> (Some (Some (Plain c)), [])
      | Some cfg \<Rightarrow>
          (case hs of
             HandshakeHangs \<Rightarrow> (None, [Handshake c cfg])
           | HandshakeFailed e \<Rightarrow> (Some None, [Handshake c cfg])
           | HandshakeOK \<Rightarrow> (Some (Some (TLSWrapped c cfg)), [Handshake c cfg])))"

text \<open>Lines 183-188: the deferred function, given what \<^verbatim>\<open>recover()\<close> answers.\<close>

definition deferred_recover :: "logger \<Rightarrow> string option \<Rightarrow> event list" where
  "deferred_recover errorLog e = (case e of None \<Rightarrow> [] | Some v \<Rightarrow> [LogPrint errorLog v])"

text \<open>Lines 167-193: whether the block came to its end, and its events.\<close>

definition handle :: "TCPServer \<Rightarrow> conn \<Rightarrow> handshake_result \<Rightarrow> handler_outcome \<Rightarrow> bool \<times> event list" where
  "handle srv c hs ho =
     (case Handler srv of
        None \<Rightarrow> (True, [])
      | Some h \<Rightarrow>
          let errorLog = (case ErrorLog srv of None \<Rightarrow> DiscardLogger | Some lg \<Rightarrow> lg) in
          (case handlerConn srv c hs of
             (None, es) \<Rightarrow> (False, es)
           | (Some None, es) \<Rightarrow> (True, es @ deferred_recover errorLog None)
           | (Some (Some s), es) \<Rightarrow>
               (case ho of
                  HandlerHangs \<Rightarrow> (False, es @ [HandlerServe h s])
                | HandlerReturns \<Rightarrow> (True, es @ [HandlerServe h s] @ deferred_recover errorLog None)
                | HandlerPanics v \<Rightarrow> (True, es @ [HandlerServe h s] @ deferred_recover errorLog (Some v)))))"

text \<open>
  Lines 157-200. \<open>during\<close> is what the other goroutines (other workers, \<^verbatim>\<open>Close\<close>,
  \<^verbatim>\<open>Shutdown\<close>) did to the server between this worker's registration and its cleanup.
\<close>

definition serve ::
  "TCPServer \<Rightarrow> conn \<Rightarrow> handshake_result \<Rightarrow> handler_outcome \<Rightarrow> (TCPServer \<Rightarrow> TCPServer) \<Rightarrow> unit run" where
  "serve srv c hs ho during =
     (case register srv c of
        None \<Rightarrow> (Panicked NilMapWrite, srv, [])
      | Some srv1 \<Rightarrow>
          (case handle srv1 c hs ho of
             (False, es) \<Rightarrow> (Blocked, during srv1, Register c # es)
           | (True, es) \<Rightarrow>
               (Returned (), unregister (during srv1) c,
                Register c # es @ [ConnClose (Plain c), Unregister c])))"

section \<open>Steps of other goroutines\<close>

text \<open>
  \<^verbatim>\<open>Serve\<close>, \<^verbatim>\<open>Shutdown\<close>, \<^verbatim>\<open>Close\<close> and the workers run concurrently on one server. A
  function that waits (in \<^verbatim>\<open>Accept\<close>, or in the \<^verbatim>\<open>select\<close> of \<^verbatim>\<open>Shutdown\<close>) is given the
  list of what happens while it runs; among these are the atomic steps of the other
  goroutines on the shared fields, interleaved in the order they take effect:
  \<^item> \<open>ClosesListener\<close>: line 53 or 95, \<^verbatim>\<open>srv.l.Close()\<close> of a \<^verbatim>\<open>Shutdown\<close> or \<^verbatim>\<open>Close\<close>;
  \<^item> \<open>SignalsShutdown\<close>: lines 54-57 or 96-99 of the same call;
  \<^item> \<open>Registers c\<close>: lines 160-165 of the worker of \<open>c\<close>;
  \<^item> \<open>Unregisters c\<close>: lines 197-199 of the worker of \<open>c\<close>.
  \<open>Inl\<close> is a panic of that goroutine, which ends the process.
\<close>

datatype concurrent = ClosesListener | SignalsShutdown | Registers conn | Unregisters conn

fun concurrently :: "concurrent \<Rightarrow> TCPServer \<Rightarrow> (fault + TCPServer)" where
  "concurrently ClosesListener srv =
     (case srv_l srv of None \<Rightarrow> Inl NilDereference | Some lst \<Rightarrow> Inr srv)"
| "concurrently SignalsShutdown srv = Inr (signal_shutdown srv)"
| "concurrently (Registers c) srv =
     (case register srv c of None \<Rightarrow> Inl NilMapWrite | Some srv' \<Rightarrow> Inr srv')"
| "concurrently (Unregisters c) srv = Inr (unregister srv c)"

section \<open>\<^verbatim>\<open>Shutdown\<close>\<close>

text \<open>
  What happens while \<^verbatim>\<open>Shutdown\<close> is in its loop (lines 68-86): the \<^verbatim>\<open>select\<close> takes the
  case of the 5 ms timer, or the case \<^verbatim>\<open>ctx.Done()\<close> (and \<^verbatim>\<open>ctx.Err()\<close> is the given
  error), or another goroutine takes a step.
\<close>

datatype shutdown_ev = TimerFired | CtxDone error | While_waiting concurrent

fun Shutdown_wait :: "TCPServer \<Rightarrow> error option \<Rightarrow> shutdown_ev list \<Rightarrow> (error option) run" where
  "Shutdown_wait srv err [] = (Blocked, srv, [])"
| "Shutdown_wait srv err (TimerFired # evs) =
     (if length (registry srv) = 0 then (Returned err, srv, [])
      else Shutdown_wait srv err evs)"
| "Shutdown_wait srv err (CtxDone cerr # evs) =
     (Returned (Some cerr), srv, force_close (registry srv))"
| "Shutdown_wait srv err (While_waiting step # evs) =
     (case concurrently step srv of
        Inl f \<Rightarrow> (Panicked f, srv, [])
      | Inr srv' \<Rightarrow> Shutdown_wait srv' err evs)"

text \<open>Lines 52-87. \<open>lerr\<close> is what \<^verbatim>\<open>srv.l.Close()\<close> answers.\<close>

definition Shutdown :: "TCPServer \<Rightarrow> error option \<Rightarrow> shutdown_ev list \<Rightarrow> (error option) run" where
  "Shutdown srv lerr evs =
     (case srv_l srv of
        None \<Rightarrow> (Panicked NilDereference, srv, [])
      | Some lst \<Rightarrow>
          let err = lerr;
              srv1 = signal_shutdown srv;
              (m, es) = cancel_conns (registry srv1);
              srv2 = (case srv_conns srv1 of None \<Rightarrow> srv1 | Some _ \<Rightarrow> srv1\<lparr>srv_conns := Some m\<rparr>)
          in emit (ListenerClose lst # ShutdownSignal # es) (Shutdown_wait srv2 err evs))"

section \<open>\<^verbatim>\<open>Serve\<close> and \<^verbatim>\<open>ListenAndServe\<close>\<close>

text \<open>
  What happens while \<^verbatim>\<open>Serve\<close> is in its loop (lines 137-154): \<^verbatim>\<open>l.Accept()\<close> answers a
  connection or an error, or another goroutine takes a step. \<open>ListenerAccept\<close> records a
  call of \<^verbatim>\<open>l.Accept()\<close> when it comes back; with the list used up, \<^verbatim>\<open>Serve\<close> is blocked
  in the next call.
\<close>

datatype serve_ev = Accepted conn | AcceptFailed error | While_serving concurrent

text \<open>Lines 141-146: the receive on a \<^verbatim>\<open>nil\<close> channel is never ready.\<close>

definition drain_closeCh :: "TCPServer \<Rightarrow> bool \<times> TCPServer" where
  "drain_closeCh srv =
     (case srv_closeCh srv of
        None \<Rightarrow> (False, srv)
      | Some ch \<Rightarrow> (case try_recv ch of (ok, ch') \<Rightarrow> (ok, srv\<lparr>srv_closeCh := Some ch'\<rparr>)))"

fun Serve_loop :: "TCPServer \<Rightarrow> listener \<Rightarrow> serve_ev list \<Rightarrow> (error option) run" where
  "Serve_loop srv lst [] = (Blocked, srv, [])"
| "Serve_loop srv lst (Accepted c # evs) =
     emit [ListenerAccept lst, Go_serve c] (Serve_loop srv lst evs)"
| "Serve_loop srv lst (AcceptFailed e # evs) =
     (case drain_closeCh srv of
        (True, srv') \<Rightarrow> (Returned None, srv', [ListenerAccept lst])
      | (False, srv') \<Rightarrow>
          if is_temporary e then emit [ListenerAccept lst, Sleep_ms 5] (Serve_loop srv' lst evs)
          else (Returned (Some e), srv', [ListenerAccept lst]))"
| "Serve_loop srv lst (While_serving step # evs) =
     (case concurrently step srv of
        Inl f \<Rightarrow> (Panicked f, srv, [])
      | Inr srv' \<Rightarrow> Serve_loop srv' lst evs)"

text \<open>Lines 131-133.\<close>

definition Serve_init :: "TCPServer \<Rightarrow> listener \<Rightarrow> TCPServer" where
  "Serve_init srv lst = srv\<lparr>srv_l := Some lst, srv_conns := Some [], srv_closeCh := Some (make_chan 1)\<rparr>"

text \<open>Lines 134-136: the deferred \<^verbatim>\<open>srv.l.Close()\<close>, run when the loop returns.\<close>

definition Serve_deferred :: "(error option) run \<Rightarrow> (error option) run" where
  "Serve_deferred r =
     (case r of
        (Returned err, srv, tr) \<Rightarrow>
          (case srv_l srv of
             None \<Rightarrow> (Panicked NilDereference, srv, tr)
           | Some lst \<Rightarrow> (Returned err, srv, tr @ [ListenerClose lst]))
      | (Panicked f, srv, tr) \<Rightarrow> (Panicked f, srv, tr)
      | (Blocked, srv, tr) \<Rightarrow> (Blocked, srv, tr))"

text \<open>Lines 130-155.\<close>

definition Serve :: "TCPServer \<Rightarrow> listener \<Rightarrow> serve_ev list \<Rightarrow> (error option) run" where
  "Serve srv lst evs = Serve_deferred (Serve_loop (Serve_init srv lst) lst evs)"

text \<open>Lines 117-124. \<open>listen\<close> is what \<^verbatim>\<open>net.Listen("tcp", addr)\<close> answers.\<close>

definition ListenAndServe :: "TCPServer \<Rightarrow> error + listener \<Rightarrow> serve_ev list \<Rightarrow> (error option) run" where
  "ListenAndServe srv listen evs =
     (case listen of
        Inl err \<Rightarrow> (Returned (Some err), srv, [])
      | Inr lst \<Rightarrow> Serve srv lst evs)"

section \<open>Example states\<close>

text \<open>A server being served, with the workers of two connections registered.\<close>

definition two_conns :: TCPServer where
  "two_conns =
     \<lparr>Addr = '':7000'', Handler = Some (HandlerId 0), TLSConfig = None, ErrorLog = None,
      srv_l = Some (Listener 0),
      srv_conns = Some [(Conn 1, \<lparr>cc_conn = Conn 1, cc_closeCh = \<lparr>chan_cap = 1, chan_len = 0\<rparr>\<rparr>),
                        (Conn 2, \<lparr>cc_conn = Conn 2, cc_closeCh = \<lparr>chan_cap = 1, chan_len = 1\<rparr>\<rparr>)],
      srv_closeCh = Some \<lparr>chan_cap = 1, chan_len = 0\<rparr>\<rparr>"

section \<open>The loops over the registry\<close>

lemma close_conns_entries: "fst (close_conns m) = map (\<lambda>(k, c). (k, signal_cancel c)) m"
  by (induction m) (auto split: prod.splits)

lemma close_conns_events:
  "snd (close_conns m) =
     concat (map (\<lambda>(k, c). [CancelSignal (cc_conn c), ConnClose (Plain (cc_conn c))]) m)"
  by (induction m) (auto split: prod.splits)

lemma cancel_conns_entries: "fst (cancel_conns m) = map (\<lambda>(k, c). (k, signal_cancel c)) m"
  by (induction m) (auto split: prod.splits)

lemma cancel_conns_events: "snd (cancel_conns m) = map (\<lambda>(k, c). CancelSignal (cc_conn c)) m"
  by (induction m) (auto split: prod.splits)

lemma force_close_events: "force_close m = map (\<lambda>(k, c). ConnClose (Plain (cc_conn c))) m"
  by (induction m) auto

lemma registry_signal_shutdown: "registry (signal_shutdown srv) = registry srv"
  by (simp add: registry_def signal_shutdown_def)

section \<open>Properties of \<^verbatim>\<open>Close\<close>\<close>

text \<open>
  C3. On a server that has a listener, \<^verbatim>\<open>Close\<close> closes the listener, then sends without
  blocking on the shutdown slot, then, for each entry of the registry, sends without
  blocking on the entry's cancellation channel and closes the entry's connection. It
  returns what closing the listener answered. It returns whatever the workers do (the
  model takes no step of another goroutine), and the registry still has the same keys when
  it returns: no worker has been waited for.
\<close>

theorem Close_steps_in_order:
  assumes "srv_l srv = Some lst"
  shows "Close srv lerr =
           (Returned lerr,
            srv\<lparr>srv_conns := map_option (map (\<lambda>(k, c). (k, signal_cancel c))) (srv_conns srv),
                srv_closeCh := map_option try_send (srv_closeCh srv)\<rparr>,
            ListenerClose lst # ShutdownSignal #
              concat (map (\<lambda>(k, c). [CancelSignal (cc_conn c), ConnClose (Plain (cc_conn c))])
                        (registry srv)))
         \<and> map fst (registry (fst (snd (Close srv lerr)))) = map fst (registry srv)"
proof -
  obtain m es where ce: "close_conns (registry srv) = (m, es)"
    by (cases "close_conns (registry srv)")
  have m: "m = map (\<lambda>(k, c). (k, signal_cancel c)) (registry srv)"
    using close_conns_entries [of "registry srv"] ce by simp
  have es: "es = concat (map (\<lambda>(k, c). [CancelSignal (cc_conn c), ConnClose (Plain (cc_conn c))])
                           (registry srv))"
    using close_conns_events [of "registry srv"] ce by simp
  have run: "Close srv lerr =
           (Returned lerr,
            srv\<lparr>srv_conns := map_option (map (\<lambda>(k, c). (k, signal_cancel c))) (srv_conns srv),
                srv_closeCh := map_option try_send (srv_closeCh srv)\<rparr>,
            ListenerClose lst # ShutdownSignal # es)"
    using assms ce m
    by (cases "srv_conns srv")
       (simp_all add: Close_def registry_signal_shutdown signal_shutdown_def registry_def)
  show ?thesis
    unfolding run es [symmetric]
    by (cases "srv_conns srv") (auto simp add: registry_def)
qed

theorem Close_steps_in_order_witness:
  "srv_l two_conns = Some (Listener 0)
   \<and> Close two_conns (Some (PlainError ''close failed'')) =
       (Returned (Some (PlainError ''close failed'')),
        two_conns\<lparr>srv_conns :=
                    Some [(Conn 1, \<lparr>cc_conn = Conn 1, cc_closeCh = \<lparr>chan_cap = 1, chan_len = 1\<rparr>\<rparr>),
                          (Conn 2, \<lparr>cc_conn = Conn 2, cc_closeCh = \<lparr>chan_cap = 1, chan_len = 1\<rparr>\<rparr>)],
                  srv_closeCh := Some \<lparr>chan_cap = 1, chan_len = 1\<rparr>\<rparr>,
        [ListenerClose (Listener 0), ShutdownSignal,
         CancelSignal (Conn 1), ConnClose (Plain (Conn 1)),
         CancelSignal (Conn 2), ConnClose (Plain (Conn 2))])
   \<and> map fst (registry (fst (snd (Close two_conns (Some (PlainError ''close failed'')))))) =
       [Conn 1, Conn 2]"
proof -
  have l: "srv_l two_conns = Some (Listener 0)"
    by (simp add: two_conns_def)
  show ?thesis
    using Close_steps_in_order [OF l, of "Some (PlainError ''close failed'')"]
    by (simp add: two_conns_def registry_def signal_cancel_def try_send_def)
qed

section \<open>Properties of \<^verbatim>\<open>Shutdown\<close>\<close>

lemmas run_simps = two_conns_def registry_def signal_shutdown_def signal_cancel_def
  try_send_def try_recv_def unregister_def register_def make_chan_def emit_def

lemma Shutdown_wait_Blocked_trace:
  "Shutdown_wait srv err evs = (Blocked, srv1, tr) \<Longrightarrow> tr = []"
  by (induction srv err evs rule: Shutdown_wait.induct) (auto split: if_splits sum.splits)

lemma Shutdown_wait_append:
  "Shutdown_wait srv err pre = (Blocked, srv1, tr) \<Longrightarrow>
   Shutdown_wait srv err (pre @ evs) = Shutdown_wait srv1 err evs"
  by (induction srv err pre rule: Shutdown_wait.induct) (auto split: if_splits sum.splits)

text \<open>Lines 53-66 in closed form: the events up to the loop, and the server the loop starts on.\<close>

lemma Shutdown_unfold:
  assumes "srv_l srv = Some lst"
  shows "Shutdown srv lerr evs =
     emit (ListenerClose lst # ShutdownSignal #
             map (\<lambda>(k, c). CancelSignal (cc_conn c)) (registry srv))
       (Shutdown_wait
          (srv\<lparr>srv_conns := map_option (map (\<lambda>(k, c). (k, signal_cancel c))) (srv_conns srv),
               srv_closeCh := map_option try_send (srv_closeCh srv)\<rparr>) lerr evs)"
proof -
  obtain m es where ce: "cancel_conns (registry srv) = (m, es)"
    by (cases "cancel_conns (registry srv)")
  have m: "m = map (\<lambda>(k, c). (k, signal_cancel c)) (registry srv)"
    using cancel_conns_entries [of "registry srv"] ce by simp
  have es: "es = map (\<lambda>(k, c). CancelSignal (cc_conn c)) (registry srv)"
    using cancel_conns_events [of "registry srv"] ce by simp
  have st: "(case srv_conns (signal_shutdown srv) of
               None \<Rightarrow> signal_shutdown srv
             | Some _ \<Rightarrow> (signal_shutdown srv)\<lparr>srv_conns := Some m\<rparr>) =
            srv\<lparr>srv_conns := map_option (map (\<lambda>(k, c). (k, signal_cancel c))) (srv_conns srv),
                srv_closeCh := map_option try_send (srv_closeCh srv)\<rparr>"
    using m by (cases "srv_conns srv") (simp_all add: signal_shutdown_def registry_def)
  show ?thesis
    using assms ce es
    by (simp add: Shutdown_def registry_signal_shutdown st)
qed

text \<open>
  C1, as the code has it. \<^verbatim>\<open>Shutdown\<close> looks at the registry only when the 5 ms timer case
  of its \<^verbatim>\<open>select\<close> is taken. Let \<^verbatim>\<open>Shutdown\<close>, on a server that has a listener, still be
  in its loop after the happenings \<open>pre\<close>, the server then being \<open>srv1\<close>. If the
  registry of \<open>srv1\<close> is empty and the timer case is taken next, \<^verbatim>\<open>Shutdown\<close> returns what
  closing the listener answered, and has closed no connection. If the case \<^verbatim>\<open>ctx.Done()\<close>
  is taken next, \<^verbatim>\<open>Shutdown\<close> returns \<^verbatim>\<open>ctx.Err()\<close> and, before that, has called
  \<^verbatim>\<open>Close\<close> on the connection of every entry of the registry of \<open>srv1\<close>, whether that
  registry is empty or not.
\<close>

theorem Shutdown_poll_or_ctx:
  assumes l: "srv_l srv = Some lst"
    and pre: "Shutdown srv lerr pre = (Blocked, srv1, tr)"
  shows "(registry srv1 = [] \<longrightarrow>
            Shutdown srv lerr (pre @ TimerFired # rest) = (Returned lerr, srv1, tr))
         \<and> Shutdown srv lerr (pre @ CtxDone cerr # rest) =
             (Returned (Some cerr), srv1,
              tr @ map (\<lambda>(k, c). ConnClose (Plain (cc_conn c))) (registry srv1))
         \<and> tr = ListenerClose lst # ShutdownSignal #
                  map (\<lambda>(k, c). CancelSignal (cc_conn c)) (registry srv)"
proof -
  let ?srv0 = "srv\<lparr>srv_conns := map_option (map (\<lambda>(k, c). (k, signal_cancel c))) (srv_conns srv),
                   srv_closeCh := map_option try_send (srv_closeCh srv)\<rparr>"
  let ?es = "ListenerClose lst # ShutdownSignal #
               map (\<lambda>(k, c). CancelSignal (cc_conn c)) (registry srv)"
  obtain out s t where w: "Shutdown_wait ?srv0 lerr pre = (out, s, t)"
    by (cases "Shutdown_wait ?srv0 lerr pre")
  have "Shutdown srv lerr pre = (out, s, ?es @ t)"
    using Shutdown_unfold [OF l, of lerr pre] w by (simp add: emit_def)
  with pre have out: "out = Blocked" and s: "s = srv1" and tr: "tr = ?es @ t"
    by simp_all
  have t: "t = []"
    using Shutdown_wait_Blocked_trace w out by blast
  have app: "Shutdown_wait ?srv0 lerr (pre @ evs) = Shutdown_wait srv1 lerr evs" for evs
    using Shutdown_wait_append w out s by blast
  have run: "Shutdown srv lerr (pre @ evs) = emit tr (Shutdown_wait srv1 lerr evs)" for evs
    using Shutdown_unfold [OF l, of lerr "pre @ evs"] app tr t by simp
  show ?thesis
    using tr t by (simp add: run emit_def force_close_events)
qed

text \<open>
  Two runs on the example: both workers unregister between polls and the next poll ends
  \<^verbatim>\<open>Shutdown\<close> with the listener's answer; or the context is done while the worker of
  connection 2 is still registered, and connection 2 is closed.
\<close>

theorem Shutdown_poll_or_ctx_witness:
  "Shutdown two_conns None
     [TimerFired, While_waiting (Unregisters (Conn 1)), TimerFired,
      While_waiting (Unregisters (Conn 2)), TimerFired] =
     (Returned None,
      two_conns\<lparr>srv_conns := Some [], srv_closeCh := Some \<lparr>chan_cap = 1, chan_len = 1\<rparr>\<rparr>,
      [ListenerClose (Listener 0), ShutdownSignal, CancelSignal (Conn 1), CancelSignal (Conn 2)])
   \<and> Shutdown two_conns None
       [TimerFired, While_waiting (Unregisters (Conn 1)), CtxDone Canceled] =
     (Returned (Some Canceled),
      two_conns\<lparr>srv_conns :=
                  Some [(Conn 2, \<lparr>cc_conn = Conn 2, cc_closeCh = \<lparr>chan_cap = 1, chan_len = 1\<rparr>\<rparr>)],
                srv_closeCh := Some \<lparr>chan_cap = 1, chan_len = 1\<rparr>\<rparr>,
      [ListenerClose (Listener 0), ShutdownSignal, CancelSignal (Conn 1), CancelSignal (Conn 2),
       ConnClose (Plain (Conn 2))])"
proof -
  have l: "srv_l two_conns = Some (Listener 0)"
    by (simp add: two_conns_def)
  have pre1: "Shutdown two_conns None
      [TimerFired, While_waiting (Unregisters (Conn 1)), TimerFired,
       While_waiting (Unregisters (Conn 2))] =
     (Blocked,
      two_conns\<lparr>srv_conns := Some [], srv_closeCh := Some \<lparr>chan_cap = 1, chan_len = 1\<rparr>\<rparr>,
      [ListenerClose (Listener 0), ShutdownSignal, CancelSignal (Conn 1), CancelSignal (Conn 2)])"
    by (simp add: Shutdown_def run_simps)
  have pre2: "Shutdown two_conns None [TimerFired, While_waiting (Unregisters (Conn 1))] =
     (Blocked,
      two_conns\<lparr>srv_conns :=
                  Some [(Conn 2, \<lparr>cc_conn = Conn 2, cc_closeCh = \<lparr>chan_cap = 1, chan_len = 1\<rparr>\<rparr>)],
                srv_closeCh := Some \<lparr>chan_cap = 1, chan_len = 1\<rparr>\<rparr>,
      [ListenerClose (Listener 0), ShutdownSignal, CancelSignal (Conn 1), CancelSignal (Conn 2)])"
    by (simp add: Shutdown_def run_simps)
  show ?thesis
    using Shutdown_poll_or_ctx [OF l pre1, of "[]" Canceled]
          Shutdown_poll_or_ctx [OF l pre2, of "[]" Canceled]
    by (simp add: registry_def two_conns_def)
qed

text \<open>
  C1 as stated fails. Both workers unregister, so the registry is empty while the context
  is not yet done; the context is done before the next 5 ms poll, and \<^verbatim>\<open>Shutdown\<close> returns
  the context's error although closing the listener answered \<^verbatim>\<open>nil\<close>.
\<close>

theorem Shutdown_empty_before_ctx_counterexample:
  "Shutdown two_conns None
     [While_waiting (Unregisters (Conn 1)), While_waiting (Unregisters (Conn 2))] =
     (Blocked,
      two_conns\<lparr>srv_conns := Some [], srv_closeCh := Some \<lparr>chan_cap = 1, chan_len = 1\<rparr>\<rparr>,
      [ListenerClose (Listener 0), ShutdownSignal, CancelSignal (Conn 1), CancelSignal (Conn 2)])
   \<and> Shutdown two_conns None
        [While_waiting (Unregisters (Conn 1)), While_waiting (Unregisters (Conn 2)),
         CtxDone DeadlineExceeded] =
     (Returned (Some DeadlineExceeded),
      two_conns\<lparr>srv_conns := Some [], srv_closeCh := Some \<lparr>chan_cap = 1, chan_len = 1\<rparr>\<rparr>,
      [ListenerClose (Listener 0), ShutdownSignal, CancelSignal (Conn 1), CancelSignal (Conn 2)])
   \<and> fst (Shutdown two_conns None
        [While_waiting (Unregisters (Conn 1)), While_waiting (Unregisters (Conn 2)),
         CtxDone DeadlineExceeded]) \<noteq> Returned None"
  by (simp add: Shutdown_def run_simps)

section \<open>Properties of the accept loop\<close>

lemma emit_Nil: "emit [] r = r"
  by (cases r) (simp add: emit_def)

lemma emit_emit: "emit es (emit fs r) = emit (es @ fs) r"
  by (cases r) (simp add: emit_def)

lemma Serve_deferred_emit: "Serve_deferred (emit es r) = emit es (Serve_deferred r)"
  by (cases r) (auto simp add: emit_def Serve_deferred_def split: outcome.splits option.splits)

lemma drain_closeCh_empty: "fst (drain_closeCh srv) = False \<Longrightarrow> drain_closeCh srv = (False, srv)"
  by (auto simp add: drain_closeCh_def try_recv_def split: option.splits if_splits)

lemma Serve_loop_append:
  "Serve_loop srv lst pre = (Blocked, srv1, tr) \<Longrightarrow>
   Serve_loop srv lst (pre @ post) = emit tr (Serve_loop srv1 lst post)"
proof (induction srv lst pre arbitrary: tr rule: Serve_loop.induct)
  case (1 srv lst)
  then show ?case by (simp add: emit_Nil)
next
  case (2 srv lst c evs)
  obtain o1 s1 t1 where r: "Serve_loop srv lst evs = (o1, s1, t1)"
    by (cases "Serve_loop srv lst evs")
  with "2.prems" have "o1 = Blocked" "s1 = srv1" "tr = [ListenerAccept lst, Go_serve c] @ t1"
    by (simp_all add: emit_def)
  with "2.IH" [of t1] r show ?case
    by (simp add: emit_emit)
next
  case (3 srv lst e evs)
  obtain ok s where d: "drain_closeCh srv = (ok, s)"
    by (cases "drain_closeCh srv")
  obtain o1 s1 t1 where r: "Serve_loop s lst evs = (o1, s1, t1)"
    by (cases "Serve_loop s lst evs")
  from "3.prems" d have c: "\<not> ok \<and> is_temporary e"
    by (cases ok) (auto split: if_splits)
  from c d have d': "(False, s) = drain_closeCh srv"
    by simp
  from c "3.prems" d r have b: "o1 = Blocked" "s1 = srv1" "tr = [ListenerAccept lst, Sleep_ms 5] @ t1"
    by (simp_all add: emit_def)
  have "Serve_loop s lst (evs @ post) = emit t1 (Serve_loop srv1 lst post)"
  proof (rule "3.IH" [OF d' refl])
    show "is_temporary e" using c by simp
    show "Serve_loop s lst evs = (Blocked, srv1, t1)" using r b by simp
  qed
  with c d b show ?case
    by (simp add: emit_emit)
next
  case (4 srv lst step evs)
  then show ?case
    by (auto split: sum.splits)
qed

lemma srv_l_concurrently: "concurrently step srv = Inr srv' \<Longrightarrow> srv_l srv' = srv_l srv"
  by (cases step) (auto simp add: signal_shutdown_def register_def unregister_def split: option.splits)

lemma srv_l_drain: "srv_l (snd (drain_closeCh srv)) = srv_l srv"
  by (auto simp add: drain_closeCh_def split: option.splits prod.splits)

lemma Serve_loop_srv_l: "Serve_loop srv lst evs = (out, srv', tr) \<Longrightarrow> srv_l srv' = srv_l srv"
proof (induction srv lst evs arbitrary: out srv' tr rule: Serve_loop.induct)
  case (1 srv lst)
  then show ?case by simp
next
  case (2 srv lst c evs)
  obtain o1 s1 t1 where r: "Serve_loop srv lst evs = (o1, s1, t1)"
    by (cases "Serve_loop srv lst evs")
  with "2.prems" have "s1 = srv'"
    by (simp add: emit_def)
  with "2.IH" [OF r] show ?case
    by simp
next
  case (3 srv lst e evs)
  obtain ok s where d: "drain_closeCh srv = (ok, s)"
    by (cases "drain_closeCh srv")
  then have s: "srv_l s = srv_l srv"
    using srv_l_drain [of srv] by simp
  show ?case
  proof (cases "\<not> ok \<and> is_temporary e")
    case True
    obtain o1 s1 t1 where r: "Serve_loop s lst evs = (o1, s1, t1)"
      by (cases "Serve_loop s lst evs")
    from True d r "3.prems" have "s1 = srv'"
      by (simp add: emit_def)
    moreover from True d have d': "(False, s) = drain_closeCh srv"
      by simp
    have "srv_l s1 = srv_l s"
    proof (rule "3.IH" [OF d' refl])
      show "is_temporary e" using True by simp
      show "Serve_loop s lst evs = (o1, s1, t1)" by (rule r)
    qed
    ultimately show ?thesis using s by simp
  next
    case False
    with "3.prems" d have "srv' = s"
      by (cases ok) (simp_all split: if_splits)
    with s show ?thesis by simp
  qed
next
  case (4 srv lst step evs)
  show ?case
  proof (cases "concurrently step srv")
    case (Inl f)
    with "4.prems" show ?thesis by simp
  next
    case (Inr s)
    with "4.prems" have "Serve_loop s lst evs = (out, srv', tr)"
      by simp
    from "4.IH" [OF Inr this] srv_l_concurrently [OF Inr] show ?thesis
      by simp
  qed
qed

lemma Serve_loop_no_temporary:
  "Serve_loop srv lst evs = (Returned (Some e), srv', tr) \<Longrightarrow> \<not> is_temporary e"
proof (induction srv lst evs arbitrary: tr rule: Serve_loop.induct)
  case (1 srv lst)
  then show ?case by simp
next
  case (2 srv lst c evs)
  then show ?case
    by (cases "Serve_loop srv lst evs") (auto simp add: emit_def)
next
  case (3 srv lst e' evs)
  obtain ok s where d: "drain_closeCh srv = (ok, s)"
    by (cases "drain_closeCh srv")
  show ?case
  proof (cases "\<not> ok \<and> is_temporary e'")
    case True
    obtain o1 s1 t1 where r: "Serve_loop s lst evs = (o1, s1, t1)"
      by (cases "Serve_loop s lst evs")
    with "3.prems" d True have r': "Serve_loop s lst evs = (Returned (Some e), srv', t1)"
      by (simp add: emit_def)
    from True d have d': "(False, s) = drain_closeCh srv" by simp
    show ?thesis
    proof (rule "3.IH" [OF d' refl])
      show "is_temporary e'" using True by simp
      show "Serve_loop s lst evs = (Returned (Some e), srv', t1)" by (rule r')
    qed
  next
    case False
    with "3.prems" d show ?thesis
      by (cases ok) (auto split: if_splits)
  qed
next
  case (4 srv lst step evs)
  then show ?case
    by (auto split: sum.splits)
qed

lemma Serve_deferred_Blocked: "Serve_deferred r = (Blocked, s, t) \<Longrightarrow> r = (Blocked, s, t)"
  by (cases r) (auto simp add: Serve_deferred_def split: outcome.splits option.splits)

text \<open>
  C7. Let \<^verbatim>\<open>Serve\<close> still be in its loop after the happenings \<open>pre\<close>, with no shutdown
  signal pending in \<^verbatim>\<open>srv.closeCh\<close>, and let the next \<^verbatim>\<open>Accept\<close> fail with \<open>e\<close>. If \<open>e\<close> is
  a temporary network error, \<^verbatim>\<open>Serve\<close> sleeps 5 ms and carries on with the loop from the same
  server state (the retry). Otherwise \<^verbatim>\<open>Serve\<close> returns \<open>e\<close>, and the last thing it does is
  close the listener. Whatever happens, an error that \<^verbatim>\<open>Serve\<close> returns is not temporary.
\<close>

theorem Serve_accept_failure:
  assumes pre: "Serve srv lst pre = (Blocked, srv1, tr)"
    and nosig: "fst (drain_closeCh srv1) = False"
  shows "(is_temporary e \<longrightarrow>
            Serve srv lst (pre @ AcceptFailed e # rest) =
              emit (tr @ [ListenerAccept lst, Sleep_ms 5]) (Serve_deferred (Serve_loop srv1 lst rest)))
         \<and> (\<not> is_temporary e \<longrightarrow>
            Serve srv lst (pre @ AcceptFailed e # rest) =
              (Returned (Some e), srv1, tr @ [ListenerAccept lst, ListenerClose lst]))
         \<and> (\<forall>e' srv' tr'. Serve srv lst evs = (Returned (Some e'), srv', tr') \<longrightarrow> \<not> is_temporary e')"
proof -
  let ?s0 = "Serve_init srv lst"
  have loop: "Serve_loop ?s0 lst pre = (Blocked, srv1, tr)"
    using pre by (simp add: Serve_def Serve_deferred_Blocked)
  have l: "srv_l srv1 = Some lst"
    using Serve_loop_srv_l [OF loop] by (simp add: Serve_init_def)
  have d: "drain_closeCh srv1 = (False, srv1)"
    using nosig by (rule drain_closeCh_empty)
  have app: "Serve srv lst (pre @ post) = emit tr (Serve_deferred (Serve_loop srv1 lst post))" for post
    using Serve_loop_append [OF loop, of post] by (simp add: Serve_def Serve_deferred_emit)
  have temp: "Serve srv lst (pre @ AcceptFailed e # rest) =
              emit (tr @ [ListenerAccept lst, Sleep_ms 5]) (Serve_deferred (Serve_loop srv1 lst rest))"
    if "is_temporary e"
    using that d by (simp add: app Serve_deferred_emit emit_emit)
  have fatal: "Serve srv lst (pre @ AcceptFailed e # rest) =
              (Returned (Some e), srv1, tr @ [ListenerAccept lst, ListenerClose lst])"
    if "\<not> is_temporary e"
    using that d l by (simp add: app Serve_deferred_def emit_def)
  have never: "\<not> is_temporary e'" if r: "Serve srv lst evs = (Returned (Some e'), srv', tr')" for e' srv' tr'
  proof -
    obtain o1 s1 t1 where lp: "Serve_loop ?s0 lst evs = (o1, s1, t1)"
      by (cases "Serve_loop ?s0 lst evs")
    with r have "o1 = Returned (Some e')"
      by (auto simp add: Serve_def Serve_deferred_def split: outcome.splits option.splits)
    with lp Serve_loop_no_temporary show ?thesis
      by blast
  qed
  from temp fatal never show ?thesis
    by blast
qed

text \<open>
  Two accept failures on a fresh server: the temporary one is slept on and retried, the
  fatal one is returned after the listener is closed.
\<close>

theorem Serve_accept_failure_witness:
  "Serve (new_server '':7000'' None None None) (Listener 0)
     [Accepted (Conn 1), AcceptFailed (NetError ''accept: too many open files'' True)] =
     (Blocked,
      \<lparr>Addr = '':7000'', Handler = None, TLSConfig = None, ErrorLog = None,
       srv_l = Some (Listener 0), srv_conns = Some [],
       srv_closeCh = Some \<lparr>chan_cap = 1, chan_len = 0\<rparr>\<rparr>,
      [ListenerAccept (Listener 0), Go_serve (Conn 1), ListenerAccept (Listener 0), Sleep_ms 5])
   \<and> Serve (new_server '':7000'' None None None) (Listener 0)
     [Accepted (Conn 1), AcceptFailed (NetError ''accept: too many open files'' True),
      AcceptFailed (PlainError ''accept: invalid argument''), Accepted (Conn 2)] =
     (Returned (Some (PlainError ''accept: invalid argument'')),
      \<lparr>Addr = '':7000'', Handler = None, TLSConfig = None, ErrorLog = None,
       srv_l = Some (Listener 0), srv_conns = Some [],
       srv_closeCh = Some \<lparr>chan_cap = 1, chan_len = 0\<rparr>\<rparr>,
      [ListenerAccept (Listener 0), Go_serve (Conn 1), ListenerAccept (Listener 0), Sleep_ms 5,
       ListenerAccept (Listener 0), ListenerClose (Listener 0)])
   \<and> \<not> is_temporary (PlainError ''accept: invalid argument'')"
proof -
  let ?srv = "new_server '':7000'' None None None"
  let ?s1 = "\<lparr>Addr = '':7000'', Handler = None, TLSConfig = None, ErrorLog = None,
       srv_l = Some (Listener 0), srv_conns = Some [],
       srv_closeCh = Some \<lparr>chan_cap = 1, chan_len = 0\<rparr>\<rparr>"
  have pre1: "Serve ?srv (Listener 0) [Accepted (Conn 1)] =
      (Blocked, ?s1, [ListenerAccept (Listener 0), Go_serve (Conn 1)])"
    by (simp add: Serve_def Serve_init_def Serve_deferred_def new_server_def make_chan_def emit_def)
  have pre2: "Serve ?srv (Listener 0)
       [Accepted (Conn 1), AcceptFailed (NetError ''accept: too many open files'' True)] =
      (Blocked, ?s1,
       [ListenerAccept (Listener 0), Go_serve (Conn 1), ListenerAccept (Listener 0), Sleep_ms 5])"
    by (simp add: Serve_def Serve_init_def Serve_deferred_def new_server_def make_chan_def emit_def
          drain_closeCh_def try_recv_def)
  have nosig: "fst (drain_closeCh ?s1) = False"
    by (simp add: drain_closeCh_def try_recv_def)
  show ?thesis
    using Serve_accept_failure [OF pre1 nosig,
            of "NetError ''accept: too many open files'' True" "[]" "[]"]
          Serve_accept_failure [OF pre2 nosig,
            of "PlainError ''accept: invalid argument''" "[Accepted (Conn 2)]" "[]"]
    by (simp add: Serve_deferred_def emit_def)
qed

section \<open>\<^verbatim>\<open>Serve\<close> against a concurrent \<^verbatim>\<open>Close\<close> or \<^verbatim>\<open>Shutdown\<close>\<close>

text \<open>The design of lines 141-146: an accept failure met with the signal pending ends
  \<^verbatim>\<open>Serve\<close> with \<^verbatim>\<open>nil\<close>, whatever the failure is.\<close>

lemma Serve_loop_signal_pending:
  "fst (drain_closeCh srv) \<Longrightarrow>
   Serve_loop srv lst (AcceptFailed e # evs) = (Returned None, snd (drain_closeCh srv), [ListenerAccept lst])"
  by (cases "drain_closeCh srv") simp

text \<open>
  C4, at the input where the code departs from it. \<^verbatim>\<open>Close\<close> and \<^verbatim>\<open>Shutdown\<close> close the
  listener (line 95, line 53) before they send the shutdown signal (lines 96-99, 54-57).
  \<^verbatim>\<open>Serve\<close> is blocked in \<^verbatim>\<open>Accept\<close>; \<^verbatim>\<open>Close\<close> is called and has closed the listener;
  \<^verbatim>\<open>Accept\<close> comes back with the error of a closed listener, which is not temporary; \<^verbatim>\<open>Serve\<close>
  finds \<^verbatim>\<open>srv.closeCh\<close> empty and returns that error. Had the signal been sent before
  \<^verbatim>\<open>Serve\<close> looked (second run), \<^verbatim>\<open>Serve\<close> would have returned \<^verbatim>\<open>nil\<close>.
\<close>

theorem Serve_close_race:
  "Serve srv lst
     [While_serving ClosesListener, AcceptFailed (NetError ''use of closed network connection'' False)] =
     (Returned (Some (NetError ''use of closed network connection'' False)),
      srv\<lparr>srv_l := Some lst, srv_conns := Some [], srv_closeCh := Some \<lparr>chan_cap = 1, chan_len = 0\<rparr>\<rparr>,
      [ListenerAccept lst, ListenerClose lst])
   \<and> Serve srv lst
     [While_serving ClosesListener, While_serving SignalsShutdown,
      AcceptFailed (NetError ''use of closed network connection'' False)] =
     (Returned None,
      srv\<lparr>srv_l := Some lst, srv_conns := Some [], srv_closeCh := Some \<lparr>chan_cap = 1, chan_len = 0\<rparr>\<rparr>,
      [ListenerAccept lst, ListenerClose lst])"
  by (simp add: Serve_def Serve_init_def Serve_deferred_def drain_closeCh_def try_recv_def
        try_send_def make_chan_def signal_shutdown_def)

section \<open>The state \<^verbatim>\<open>Serve\<close> sets up\<close>

text \<open>
  C10. Whatever the server held before (nothing, or the listener, registry and slot of an
  earlier call), \<^verbatim>\<open>Serve\<close> is blocked in its first \<^verbatim>\<open>Accept\<close> on a server that holds the
  given listener, an empty registry and an empty shutdown slot of capacity 1.
  \<^verbatim>\<open>ListenAndServe\<close> is \<^verbatim>\<open>Serve\<close> on the listener it got, and leaves the server as it is
  when listening fails. On a server on which \<^verbatim>\<open>Serve\<close> was never called, \<^verbatim>\<open>Close\<close> and
  \<^verbatim>\<open>Shutdown\<close> panic with a nil dereference at their first statement.
\<close>

theorem Serve_initializes:
  "Serve srv lst [] =
     (Blocked,
      srv\<lparr>srv_l := Some lst, srv_conns := Some [], srv_closeCh := Some \<lparr>chan_cap = 1, chan_len = 0\<rparr>\<rparr>,
      [])
   \<and> ListenAndServe srv (Inr lst) evs = Serve srv lst evs
   \<and> ListenAndServe srv (Inl err) evs = (Returned (Some err), srv, [])
   \<and> Close (new_server addr h cfg lg) lerr = (Panicked NilDereference, new_server addr h cfg lg, [])
   \<and> Shutdown (new_server addr h cfg lg) lerr sevs =
       (Panicked NilDereference, new_server addr h cfg lg, [])"
  by (simp add: Serve_def Serve_init_def Serve_deferred_def make_chan_def ListenAndServe_def
        Close_def Shutdown_def new_server_def)

text \<open>A second \<^verbatim>\<open>Serve\<close> on the example: its two entries and its slot are replaced.\<close>

theorem Serve_initializes_witness:
  "Serve (two_conns\<lparr>srv_closeCh := Some \<lparr>chan_cap = 1, chan_len = 1\<rparr>\<rparr>) (Listener 5) [] =
     (Blocked,
      \<lparr>Addr = '':7000'', Handler = Some (HandlerId 0), TLSConfig = None, ErrorLog = None,
       srv_l = Some (Listener 5), srv_conns = Some [],
       srv_closeCh = Some \<lparr>chan_cap = 1, chan_len = 0\<rparr>\<rparr>,
      [])
   \<and> fst (Close (new_server '':7000'' None None None) None) = Panicked NilDereference
   \<and> fst (Shutdown (new_server '':7000'' None None None) None [CtxDone Canceled]) =
       Panicked NilDereference"
  using Serve_initializes [of "two_conns\<lparr>srv_closeCh := Some \<lparr>chan_cap = 1, chan_len = 1\<rparr>\<rparr>"
          "Listener 5" "[]" Canceled "'':7000''" None None None None "[CtxDone Canceled]"]
  by (simp add: two_conns_def)

section \<open>Properties of the worker\<close>

lemma register_fields:
  "register srv c = Some srv1 \<Longrightarrow>
     Handler srv1 = Handler srv \<and> TLSConfig srv1 = TLSConfig srv \<and> ErrorLog srv1 = ErrorLog srv"
  by (auto simp add: register_def split: option.splits)

lemma register_entry:
  "register srv c = Some srv1 \<Longrightarrow>
     map_of (registry srv1) c = Some \<lparr>cc_conn = c, cc_closeCh = \<lparr>chan_cap = 1, chan_len = 0\<rparr>\<rparr>"
  by (auto simp add: register_def registry_def make_chan_def update_conv' split: option.splits)

lemma register_others:
  "register srv c = Some srv1 \<Longrightarrow> c' \<noteq> c \<Longrightarrow> map_of (registry srv1) c' = map_of (registry srv) c'"
  by (auto simp add: register_def registry_def update_conv' split: option.splits)



lemma handle_depends:
  "Handler srv1 = Handler srv \<Longrightarrow> TLSConfig srv1 = TLSConfig srv \<Longrightarrow> ErrorLog srv1 = ErrorLog srv \<Longrightarrow>
   handle srv1 c hs ho = handle srv c hs ho"
proof -
  assume a: "Handler srv1 = Handler srv" "TLSConfig srv1 = TLSConfig srv" "ErrorLog srv1 = ErrorLog srv"
  then have "handlerConn srv1 c hs = handlerConn srv c hs"
    by (simp add: handlerConn_def)
  with a show ?thesis
    by (cases "Handler srv") (simp_all add: handle_def)
qed

lemma serve_unfold:
  assumes "register srv c = Some srv1"
  shows "serve srv c hs ho during =
     (if fst (handle srv c hs ho)
      then (Returned (), unregister (during srv1) c,
            Register c # snd (handle srv c hs ho) @ [ConnClose (Plain c), Unregister c])
      else (Blocked, during srv1, Register c # snd (handle srv c hs ho)))"
  using assms handle_depends [of srv1 srv c hs ho] register_fields [OF assms]
  by (cases "handle srv c hs ho") (auto simp add: serve_def)










text \<open>
  C6. Let the worker register \<open>c\<close> on a server with a TLS configuration, and let the
  handshake fail. The worker returns normally (it has no error to return), and after the
  handshake it only closes the connection and deletes the entry: the handler is not
  called and nothing is printed on any logger.
\<close>

theorem serve_handshake_failure:
  assumes reg: "register srv c = Some srv1"
    and tls: "TLSConfig srv = Some cfg"
  shows "serve srv c (HandshakeFailed e) ho during =
           (Returned (), unregister (during srv1) c,
            Register c # (case Handler srv of None \<Rightarrow> [] | Some h \<Rightarrow> [Handshake c cfg]) @
              [ConnClose (Plain c), Unregister c])
         \<and> (\<forall>h s. HandlerServe h s \<notin> set (snd (snd (serve srv c (HandshakeFailed e) ho during))))
         \<and> (\<forall>lg v. LogPrint lg v \<notin> set (snd (snd (serve srv c (HandshakeFailed e) ho during))))"
proof -
  have "handle srv c (HandshakeFailed e) ho =
      (True, case Handler srv of None \<Rightarrow> [] | Some h \<Rightarrow> [Handshake c cfg])"
    using tls by (simp add: handle_def handlerConn_def deferred_recover_def split: option.splits)
  then show ?thesis
    by (auto simp add: serve_unfold [OF reg] split: option.splits)
qed

text \<open>A failed handshake on the example with a TLS configuration.\<close>

theorem serve_handshake_failure_witness:
  "serve (two_conns\<lparr>TLSConfig := Some (TLSConfigId 9)\<rparr>) (Conn 3)
     (HandshakeFailed (PlainError ''tls: bad certificate'')) HandlerReturns (\<lambda>s. s) =
     (Returned (), two_conns\<lparr>TLSConfig := Some (TLSConfigId 9)\<rparr>,
      [Register (Conn 3), Handshake (Conn 3) (TLSConfigId 9), ConnClose (Plain (Conn 3)),
       Unregister (Conn 3)])"
proof -
  let ?srv = "two_conns\<lparr>TLSConfig := Some (TLSConfigId 9)\<rparr>"
  let ?s1 = "?srv\<lparr>srv_conns :=
                  Some [(Conn 1, \<lparr>cc_conn = Conn 1, cc_closeCh = \<lparr>chan_cap = 1, chan_len = 0\<rparr>\<rparr>),
                        (Conn 2, \<lparr>cc_conn = Conn 2, cc_closeCh = \<lparr>chan_cap = 1, chan_len = 1\<rparr>\<rparr>),
                        (Conn 3, \<lparr>cc_conn = Conn 3, cc_closeCh = \<lparr>chan_cap = 1, chan_len = 0\<rparr>\<rparr>)]\<rparr>"
  have reg: "register ?srv (Conn 3) = Some ?s1"
    by (simp add: run_simps)
  have tls: "TLSConfig ?srv = Some (TLSConfigId 9)"
    by simp
  have u: "unregister ?s1 (Conn 3) = ?srv"
    by (simp add: run_simps)
  have h: "Handler ?srv = Some (HandlerId 0)"
    by (simp add: two_conns_def)
  note w = serve_handshake_failure [OF reg tls,
      of "PlainError ''tls: bad certificate''" HandlerReturns "\<lambda>s. s", unfolded u h]
  show ?thesis
    using w by simp
qed



text \<open>
  C9. Let the worker register \<open>c\<close> on a server with a handler and a TLS configuration,
  let the handshake succeed and the handler come back. The handler was called on the TLS
  wrapper of \<open>c\<close>; the worker then closes \<open>c\<close> itself, the connection stored in the
  registry entry, and never calls \<^verbatim>\<open>Close\<close> on the wrapper.
\<close>

theorem serve_tls_closes_raw_conn:
  assumes reg: "register srv c = Some srv1"
    and h: "Handler srv = Some h"
    and tls: "TLSConfig srv = Some cfg"
    and ho: "ho \<noteq> HandlerHangs"
  shows "serve srv c HandshakeOK ho during =
           (Returned (), unregister (during srv1) c,
            Register c # Handshake c cfg # HandlerServe h (TLSWrapped c cfg) #
              (case ho of
                 HandlerPanics v \<Rightarrow>
                   [LogPrint (case ErrorLog srv of None \<Rightarrow> DiscardLogger | Some lg \<Rightarrow> lg) v]
               | _ \<Rightarrow> []) @
              [ConnClose (Plain c), Unregister c])
         \<and> ConnClose (TLSWrapped c cfg) \<notin> set (snd (snd (serve srv c HandshakeOK ho during)))
         \<and> map_option cc_conn (map_of (registry srv1) c) = Some c"
proof -
  have "handle srv c HandshakeOK ho =
      (True, Handshake c cfg # HandlerServe h (TLSWrapped c cfg) #
              (case ho of
                 HandlerPanics v \<Rightarrow>
                   [LogPrint (case ErrorLog srv of None \<Rightarrow> DiscardLogger | Some lg \<Rightarrow> lg) v]
               | _ \<Rightarrow> []))"
    using h tls ho by (cases ho) (simp_all add: handle_def handlerConn_def deferred_recover_def)
  then show ?thesis
    using register_entry [OF reg]
    by (cases ho) (simp_all add: serve_unfold [OF reg])
qed

text \<open>A successful handshake, and a handler that returns.\<close>

theorem serve_tls_closes_raw_conn_witness:
  "serve (two_conns\<lparr>TLSConfig := Some (TLSConfigId 9)\<rparr>) (Conn 3) HandshakeOK HandlerReturns (\<lambda>s. s) =
     (Returned (), two_conns\<lparr>TLSConfig := Some (TLSConfigId 9)\<rparr>,
      [Register (Conn 3), Handshake (Conn 3) (TLSConfigId 9),
       HandlerServe (HandlerId 0) (TLSWrapped (Conn 3) (TLSConfigId 9)),
       ConnClose (Plain (Conn 3)), Unregister (Conn 3)])
   \<and> ConnClose (TLSWrapped (Conn 3) (TLSConfigId 9)) \<notin>
       set (snd (snd (serve (two_conns\<lparr>TLSConfig := Some (TLSConfigId 9)\<rparr>) (Conn 3) HandshakeOK
                        HandlerReturns (\<lambda>s. s))))"
proof -
  let ?srv = "two_conns\<lparr>TLSConfig := Some (TLSConfigId 9)\<rparr>"
  let ?s1 = "?srv\<lparr>srv_conns :=
                  Some [(Conn 1, \<lparr>cc_conn = Conn 1, cc_closeCh = \<lparr>chan_cap = 1, chan_len = 0\<rparr>\<rparr>),
                        (Conn 2, \<lparr>cc_conn = Conn 2, cc_closeCh = \<lparr>chan_cap = 1, chan_len = 1\<rparr>\<rparr>),
                        (Conn 3, \<lparr>cc_conn = Conn 3, cc_closeCh = \<lparr>chan_cap = 1, chan_len = 0\<rparr>\<rparr>)]\<rparr>"
  have reg: "register ?srv (Conn 3) = Some ?s1"
    by (simp add: run_simps)
  have tls: "TLSConfig ?srv = Some (TLSConfigId 9)"
    by simp
  have h: "Handler ?srv = Some (HandlerId 0)"
    by (simp add: two_conns_def)
  have ho: "HandlerReturns \<noteq> HandlerHangs"
    by simp
  have u: "unregister ?s1 (Conn 3) = ?srv"
    by (simp add: run_simps)
  note w = serve_tls_closes_raw_conn [OF reg h tls ho, of "\<lambda>s. s", unfolded u]
  show ?thesis
    using w by simp
qed

end
